theory Spec2Isabelle
  imports Complex_Main "HOL-Library.Word" "HOL-Library.Sublist"
begin

section \<open>The reload effect of \<open>ViewGraph\<close> (\<open>useEffect\<close>, lines 83-133)\<close>

text \<open>
  The effect body closes over one mutable variable, \<open>let interval\<close>, and talks to three
  pieces of the runtime: the timer queue (\<open>setTimeout\<close>, \<open>clearTimeout\<close>), the listener
  table of the contract object (\<open>on\<close>, \<open>removeListener\<close>) and the reducer (\<open>dispatch\<close>).
  All of them are fields of one state record that every operation takes and returns.
  Times are in milliseconds; the only callback ever handed to \<open>setTimeout\<close> is
  \<open>loadPosts\<close>, so a pending timer is its handle and its due time.
\<close>

record effect_state =
  now :: nat
  interval :: "nat option"
  timers :: "(nat \<times> nat) list"
  next_handle :: nat
  listener_on :: bool
  getPosts_calls :: "nat list"
  needsToReloadGetAllPosts :: bool
  isReloadIntervalLoading :: bool

text \<open>
  The state before the component mounts. Timer handles are positive integers, so a
  handle stored in a variable is truthy; \<open>undefined\<close> is \<open>None\<close>.
\<close>

definition initial_state :: effect_state where
  "initial_state =
     \<lparr>now = 0, interval = None, timers = [], next_handle = 1, listener_on = False,
      getPosts_calls = [], needsToReloadGetAllPosts = False,
      isReloadIntervalLoading = False\<rparr>"

text \<open>\<open>setTimeout(loadPosts, d)\<close>: a new pending timer; the handle is the return value.\<close>

definition setTimeout :: "nat \<Rightarrow> effect_state \<Rightarrow> nat \<times> effect_state" where
  "setTimeout d s =
     (next_handle s,
      s\<lparr>timers := timers s @ [(next_handle s, now s + d)],
        next_handle := Suc (next_handle s)\<rparr>)"

text \<open>\<open>clearTimeout(h)\<close>: with \<open>undefined\<close> it does nothing.\<close>

definition clearTimeout :: "nat option \<Rightarrow> effect_state \<Rightarrow> effect_state" where
  "clearTimeout h s =
     (case h of
        None \<Rightarrow> s
      | Some k \<Rightarrow> s\<lparr>timers := filter (\<lambda>(k', due). k' \<noteq> k) (timers s)\<rparr>)"

text \<open>
  \<open>loadPosts\<close> (lines 84-94): \<open>getPosts()\<close> and the two dispatches. The call is logged
  with the time at which it happens.
\<close>

definition loadPosts :: "effect_state \<Rightarrow> effect_state" where
  "loadPosts s =
     s\<lparr>getPosts_calls := getPosts_calls s @ [now s],
       needsToReloadGetAllPosts := False,
       isReloadIntervalLoading := False\<rparr>"

text \<open>\<open>!interval\<close>: true for \<open>undefined\<close> (and for the number 0).\<close>

definition not_interval :: "effect_state \<Rightarrow> bool" where
  "not_interval s = (case interval s of None \<Rightarrow> True | Some h \<Rightarrow> h = 0)"

text \<open>
  \<open>delayedEventUpdate\<close> (lines 109-119). The value returned by \<open>setTimeout\<close> is
  dropped: the source has no assignment to \<open>interval\<close>.
\<close>

definition delayedEventUpdate :: "nat \<Rightarrow> effect_state \<Rightarrow> effect_state" where
  "delayedEventUpdate d s =
     (let s1 = s\<lparr>isReloadIntervalLoading := True\<rparr>
      in if not_interval s1 then snd (setTimeout d s1) else s1)"

text \<open>
  The effect body on mount (lines 84-126). \<open>provider_ok\<close> is the test
  \<open>defaultProvider && defaultChainId !== undefined\<close>; a fresh \<open>let interval\<close> is
  \<open>undefined\<close>.
\<close>

definition effect_mount :: "bool \<Rightarrow> effect_state \<Rightarrow> effect_state" where
  "effect_mount provider_ok s =
     (let s1 = loadPosts s
      in if provider_ok then s1\<lparr>interval := None, listener_on := True\<rparr> else s1)"

text \<open>The cleanup function returned by the effect (lines 128-131).\<close>

definition effect_cleanup :: "effect_state \<Rightarrow> effect_state" where
  "effect_cleanup s = clearTimeout (interval s) (s\<lparr>listener_on := False\<rparr>)"

text \<open>
  A \<open>NewPost\<close> log delivered by the provider: the contract object calls the listener
  only while it is registered.
\<close>

definition chain_event :: "nat \<Rightarrow> effect_state \<Rightarrow> effect_state" where
  "chain_event d s = (if listener_on s then delayedEventUpdate d s else s)"

text \<open>
  The passage of time. A pending timer that is due runs its callback and leaves the
  queue; timers run in the order of their due times, equal ones in the order in which
  they were created.
\<close>

definition fire :: "nat \<times> nat \<Rightarrow> effect_state \<Rightarrow> effect_state" where
  "fire t s =
     loadPosts (s\<lparr>now := max (now s) (snd t),
                  timers := filter (\<lambda>(k, due). k \<noteq> fst t) (timers s)\<rparr>)"

definition advance :: "nat \<Rightarrow> effect_state \<Rightarrow> effect_state" where
  "advance t s =
     (let s1 = fold fire (sort_key snd (filter (\<lambda>(k, due). due \<le> t) (timers s))) s
      in s1\<lparr>now := max t (now s1)\<rparr>)"

text \<open>A run of the component: what happens, and when.\<close>

datatype occurrence = Mount | ChainEvent | Teardown

fun occur :: "nat \<Rightarrow> occurrence \<Rightarrow> effect_state \<Rightarrow> effect_state" where
  "occur d Mount s = effect_mount True s"
| "occur d ChainEvent s = chain_event d s"
| "occur d Teardown s = effect_cleanup s"

fun run :: "nat \<Rightarrow> (nat \<times> occurrence) list \<Rightarrow> effect_state \<Rightarrow> effect_state" where
  "run d [] s = s"
| "run d ((t, a) # rest) s = run d rest (occur d a (advance t s))"


section \<open>JavaScript values\<close>

text \<open>
  TypeScript types are erased before the code runs, and \<open>JSON.parse\<close> returns
  whatever the text denotes, so the decoder and the render loop work on untyped values.
  A JavaScript string is a sequence of 16-bit code units. A number is written as the
  exact rational its literal denotes; the value the program holds is the double nearest
  to it. An object is the list of its own properties in creation order; none of the
  property names the code reads (\<open>type\<close>, \<open>text\<close>, \<open>image\<close>) exists on
  \<open>Object.prototype\<close>, \<open>Array.prototype\<close> or \<open>String.prototype\<close>.
\<close>

type_synonym jschar = "16 word"

type_synonym jsstring = "jschar list"

definition js :: "string \<Rightarrow> jsstring" where
  "js s = map of_char s"

datatype jsval =
    JUndefined
  | JNull
  | JBool bool
  | JNum rat
  | JStr jsstring
  | JArr "jsval list"
  | JObj "(jsstring \<times> jsval) list"

datatype error = TypeError | SyntaxError

text \<open>Own properties: creating one that exists overwrites it in place.\<close>

fun define_prop :: "(jsstring \<times> jsval) list \<Rightarrow> jsstring \<Rightarrow> jsval \<Rightarrow> (jsstring \<times> jsval) list" where
  "define_prop [] k v = [(k, v)]"
| "define_prop ((k', v') # kvs) k v =
     (if k' = k then (k, v) # kvs else (k', v') # define_prop kvs k v)"

text \<open>
  \<open>v.k\<close> for a value other than \<open>undefined\<close> and \<open>null\<close> and for \<open>k\<close> one of
  \<open>type\<close>, \<open>text\<close>, \<open>image\<close>: only an object can have such a property.
\<close>

definition get_prop :: "jsval \<Rightarrow> jsstring \<Rightarrow> jsval" where
  "get_prop v k =
     (case v of
        JObj kvs \<Rightarrow> (case map_of kvs k of None \<Rightarrow> JUndefined | Some x \<Rightarrow> x)
      | _ \<Rightarrow> JUndefined)"

text \<open>
  \<open>'type' in v\<close>: a \<open>TypeError\<close> unless \<open>v\<close> is an object; an array has indices and
  \<open>length\<close> only.
\<close>

definition type_in :: "jsval \<Rightarrow> error + bool" where
  "type_in v =
     (case v of
        JObj kvs \<Rightarrow> Inr (js ''type'' \<in> fst ` set kvs)
      | JArr es \<Rightarrow> Inr False
      | _ \<Rightarrow> Inl TypeError)"

text \<open>
  Truthiness. A number is falsy when it is zero; a literal whose magnitude is at most
  \<open>2 ^ -1075\<close> rounds to the double zero.
\<close>

definition truthy :: "jsval \<Rightarrow> bool" where
  "truthy v =
     (case v of
        JUndefined \<Rightarrow> False
      | JNull \<Rightarrow> False
      | JBool b \<Rightarrow> b
      | JNum q \<Rightarrow> \<not> (\<bar>q\<bar> \<le> 1 / 2 ^ 1075)
      | JStr s \<Rightarrow> s \<noteq> []
      | JArr es \<Rightarrow> True
      | JObj kvs \<Rightarrow> True)"

text \<open>
  The comparison \<open>v == 'microblog'\<close>. A string is compared as it is. \<open>undefined\<close>
  and \<open>null\<close> equal no string. A number or a boolean is compared with the number the
  string denotes, which is \<open>NaN\<close>. An object or array is first converted to a
  primitive: a plain object with its own (never callable) \<open>toString\<close> property cannot
  be converted and raises a \<open>TypeError\<close>, any other plain object becomes
  \<open>[object Object]\<close>, and an array becomes the strings of its elements joined by
  commas, an element \<open>undefined\<close> or \<open>null\<close> giving the empty string.
\<close>

fun to_string_throws :: "jsval \<Rightarrow> bool" where
  "to_string_throws (JObj kvs) = (js ''toString'' \<in> fst ` set kvs)"
| "to_string_throws (JArr es) = (\<exists>e \<in> set es. to_string_throws e)"
| "to_string_throws v = False"

text \<open>
  Whether the string of a value is \<open>microblog\<close>, for a value whose conversion does
  not raise. The word has no comma, so an array with that string has one element; the
  strings of numbers, booleans, \<open>null\<close> and plain objects are other words.
\<close>

fun is_microblog_string :: "jsval \<Rightarrow> bool" where
  "is_microblog_string (JStr s) = (s = js ''microblog'')"
| "is_microblog_string (JArr [e]) = is_microblog_string e"
| "is_microblog_string v = False"

definition eq_microblog :: "jsval \<Rightarrow> error + bool" where
  "eq_microblog v =
     (case v of
        JStr s \<Rightarrow> Inr (s = js ''microblog'')
      | JObj kvs \<Rightarrow> if to_string_throws v then Inl TypeError else Inr (is_microblog_string v)
      | JArr es \<Rightarrow> if to_string_throws v then Inl TypeError else Inr (is_microblog_string v)
      | _ \<Rightarrow> Inr False)"

section \<open>\<open>JSON.parse\<close>\<close>

text \<open>
  \<open>JSON.parse\<close> is the built-in of the language, called without a reviver. It accepts
  exactly the JSON grammar and raises a \<open>SyntaxError\<close> on any other text. The text is
  split into tokens, and the tokens are read by a machine with a stack of the arrays
  and objects that are still open.
\<close>

datatype token = TLBrace | TRBrace | TLBrack | TRBrack | TColon | TComma | TLit jsval

definition is_ws :: "jschar \<Rightarrow> bool" where
  "is_ws c = (c = 0x09 \<or> c = 0x0A \<or> c = 0x0D \<or> c = 0x20)"

definition is_digit :: "jschar \<Rightarrow> bool" where
  "is_digit c = (0x30 \<le> c \<and> c \<le> 0x39)"

definition hex_val :: "jschar \<Rightarrow> jschar option" where
  "hex_val c =
     (if 0x30 \<le> c \<and> c \<le> 0x39 then Some (c - 0x30)
      else if 0x41 \<le> c \<and> c \<le> 0x46 then Some (c - 0x37)
      else if 0x61 \<le> c \<and> c \<le> 0x66 then Some (c - 0x57)
      else None)"

definition hex4 :: "jschar \<Rightarrow> jschar \<Rightarrow> jschar \<Rightarrow> jschar \<Rightarrow> jschar option" where
  "hex4 a b c d =
     (case (hex_val a, hex_val b, hex_val c, hex_val d) of
        (Some x, Some y, Some z, Some w) \<Rightarrow> Some (x * 0x1000 + y * 0x100 + z * 0x10 + w)
      | _ \<Rightarrow> None)"

text \<open>The character after a backslash, other than \<open>u\<close>.\<close>

definition escape :: "jschar \<Rightarrow> jschar option" where
  "escape e =
     (if e = 0x22 then Some 0x22
      else if e = 0x5C then Some 0x5C
      else if e = 0x2F then Some 0x2F
      else if e = 0x62 then Some 0x08
      else if e = 0x66 then Some 0x0C
      else if e = 0x6E then Some 0x0A
      else if e = 0x72 then Some 0x0D
      else if e = 0x74 then Some 0x09
      else None)"

definition cons_fst :: "'a \<Rightarrow> ('a list \<times> 'b) option \<Rightarrow> ('a list \<times> 'b) option" where
  "cons_fst x r = map_option (\<lambda>(s, rest). (x # s, rest)) r"

text \<open>
  The body of a string literal, after the opening quote: the string it denotes and the
  text after the closing quote. A control character must be escaped.
\<close>

fun lex_string :: "jsstring \<Rightarrow> (jsstring \<times> jsstring) option" where
  "lex_string [] = None"
| "lex_string (c # cs) =
     (if c = 0x22 then Some ([], cs)
      else if c = 0x5C then
        (case cs of
           [] \<Rightarrow> None
         | e # cs1 \<Rightarrow>
             if e = 0x75 then
               (case cs1 of
                  h1 # h2 # h3 # h4 # cs2 \<Rightarrow>
                    (case hex4 h1 h2 h3 h4 of
                       None \<Rightarrow> None
                     | Some u \<Rightarrow> cons_fst u (lex_string cs2))
                | _ \<Rightarrow> None)
             else
               (case escape e of
                  None \<Rightarrow> None
                | Some u \<Rightarrow> cons_fst u (lex_string cs1)))
      else if c < 0x20 then None
      else cons_fst c (lex_string cs))"

text \<open>Numbers: \<open>-? (0 | [1-9][0-9]*) (. [0-9]+)? ([eE] [+-]? [0-9]+)?\<close>.\<close>

definition digits_val :: "jsstring \<Rightarrow> nat" where
  "digits_val ds = fold (\<lambda>d n. 10 * n + unat (d - 0x30)) ds 0"

definition lex_sign :: "jsstring \<Rightarrow> bool \<times> jsstring" where
  "lex_sign cs =
     (case cs of
        [] \<Rightarrow> (False, cs)
      | c # r \<Rightarrow> if c = 0x2D then (True, r) else (False, cs))"

definition lex_int :: "jsstring \<Rightarrow> (jsstring \<times> jsstring) option" where
  "lex_int cs =
     (case cs of
        [] \<Rightarrow> None
      | c # r \<Rightarrow>
          if c = 0x30 then Some ([c], r)
          else if is_digit c then Some (takeWhile is_digit cs, dropWhile is_digit cs)
          else None)"

definition lex_frac :: "jsstring \<Rightarrow> (jsstring \<times> jsstring) option" where
  "lex_frac cs =
     (case cs of
        [] \<Rightarrow> Some ([], cs)
      | c # r \<Rightarrow>
          if c = 0x2E then
            (if takeWhile is_digit r = [] then None
             else Some (takeWhile is_digit r, dropWhile is_digit r))
          else Some ([], cs))"

definition lex_exp_sign :: "jsstring \<Rightarrow> int \<times> jsstring" where
  "lex_exp_sign cs =
     (case cs of
        [] \<Rightarrow> (1, cs)
      | c # r \<Rightarrow> if c = 0x2B then (1, r) else if c = 0x2D then (- 1, r) else (1, cs))"

definition lex_exp :: "jsstring \<Rightarrow> (int \<times> jsstring) option" where
  "lex_exp cs =
     (case cs of
        [] \<Rightarrow> Some (0, cs)
      | c # r \<Rightarrow>
          if c = 0x65 \<or> c = 0x45 then
            (case lex_exp_sign r of
               (sg, r1) \<Rightarrow>
                 if takeWhile is_digit r1 = [] then None
                 else Some (sg * int (digits_val (takeWhile is_digit r1)),
                            dropWhile is_digit r1))
          else Some (0, cs))"

definition number_value :: "bool \<Rightarrow> jsstring \<Rightarrow> int \<Rightarrow> rat" where
  "number_value neg ds e =
     (let m = of_nat (digits_val ds);
          q = (if 0 \<le> e then m * 10 ^ nat e else m / 10 ^ nat (- e))
      in if neg then - q else q)"

definition lex_number :: "jsstring \<Rightarrow> (rat \<times> jsstring) option" where
  "lex_number cs =
     (case lex_sign cs of
        (neg, cs1) \<Rightarrow>
          (case lex_int cs1 of
             None \<Rightarrow> None
           | Some (ip, cs2) \<Rightarrow>
               (case lex_frac cs2 of
                  None \<Rightarrow> None
                | Some (fp, cs3) \<Rightarrow>
                    (case lex_exp cs3 of
                       None \<Rightarrow> None
                     | Some (ex, cs4) \<Rightarrow>
                         Some (number_value neg (ip @ fp) (ex - int (length fp)), cs4)))))"


text \<open>The tokens of a text, or nothing when some part of it is no token.\<close>

definition starts_with :: "jsstring \<Rightarrow> jsstring \<Rightarrow> bool" where
  "starts_with w cs = (take (length w) cs = w)"

function lex :: "jsstring \<Rightarrow> token list option" where
  "lex [] = Some []"
| "lex (c # cs) =
     (if is_ws c then lex cs
      else if c = 0x7B then map_option (Cons TLBrace) (lex cs)
      else if c = 0x7D then map_option (Cons TRBrace) (lex cs)
      else if c = 0x5B then map_option (Cons TLBrack) (lex cs)
      else if c = 0x5D then map_option (Cons TRBrack) (lex cs)
      else if c = 0x3A then map_option (Cons TColon) (lex cs)
      else if c = 0x2C then map_option (Cons TComma) (lex cs)
      else if c = 0x22 then
        (case lex_string cs of
           None \<Rightarrow> None
         | Some (s, rest) \<Rightarrow> map_option (Cons (TLit (JStr s))) (lex rest))
      else if c = 0x2D \<or> is_digit c then
        (case lex_number (c # cs) of
           None \<Rightarrow> None
         | Some (q, rest) \<Rightarrow> map_option (Cons (TLit (JNum q))) (lex rest))
      else if starts_with (js ''true'') (c # cs) then
        map_option (Cons (TLit (JBool True))) (lex (drop 3 cs))
      else if starts_with (js ''false'') (c # cs) then
        map_option (Cons (TLit (JBool False))) (lex (drop 4 cs))
      else if starts_with (js ''null'') (c # cs) then
        map_option (Cons (TLit JNull)) (lex (drop 3 cs))
      else None)"
  by pat_completeness auto
termination
proof -
  have str: "length rest \<le> length cs" if "lex_string cs = Some (s, rest)" for cs s rest
    using that
  proof (induction cs arbitrary: s rest rule: lex_string.induct)
    case 1
    then show ?case by simp
  next
    case (2 c cs)
    then show ?case
      by (fastforce simp: cons_fst_def split: if_splits list.splits option.splits)
  qed
  have d: "length (dropWhile is_digit xs) \<le> length xs" for xs :: jsstring
    by (rule length_dropWhile_le)
  have d': "length (dropWhile is_digit xs) \<le> Suc (length xs)" for xs :: jsstring
    using d [of xs] by simp
  have sgn: "length r \<le> length cs" if "lex_sign cs = (b, r)" for cs b r
    using that by (auto simp: lex_sign_def split: list.splits if_splits)
  have ipart: "length r < length cs" if "lex_int cs = Some (ip, r)" for cs ip r
    using that by (auto simp: lex_int_def less_Suc_eq_le d split: list.splits if_splits)
  have fpart: "length r \<le> length cs" if "lex_frac cs = Some (fp, r)" for cs fp r
    using that d' by (auto simp: lex_frac_def split: list.splits if_splits)
  have esgn: "length r \<le> length cs" if "lex_exp_sign cs = (b, r)" for cs b r
    using that by (auto simp: lex_exp_sign_def split: list.splits if_splits)
  have epart: "length r \<le> length cs" if "lex_exp cs = Some (e, r)" for cs e r
  proof (cases cs)
    case Nil
    with that show ?thesis by (simp add: lex_exp_def)
  next
    case (Cons c r0)
    show ?thesis
    proof (cases "c = 0x65 \<or> c = 0x45")
      case False
      with that Cons show ?thesis by (auto simp: lex_exp_def)
    next
      case True
      obtain sg r1 where sr: "lex_exp_sign r0 = (sg, r1)" by (cases "lex_exp_sign r0")
      from that Cons True sr have "r = dropWhile is_digit r1"
        by (auto simp: lex_exp_def split: if_splits)
      with d [of r1] esgn [OF sr] Cons show ?thesis by simp
    qed
  qed
  have num: "length rest < length cs" if "lex_number cs = Some (q, rest)" for cs q rest
  proof -
    obtain neg cs1 where 1: "lex_sign cs = (neg, cs1)" by (cases "lex_sign cs")
    from that 1 obtain ip cs2 where 2: "lex_int cs1 = Some (ip, cs2)"
      by (auto simp: lex_number_def split: option.splits)
    from that 1 2 obtain fp cs3 where 3: "lex_frac cs2 = Some (fp, cs3)"
      by (auto simp: lex_number_def split: option.splits)
    from that 1 2 3 obtain ex where 4: "lex_exp cs3 = Some (ex, rest)"
      by (auto simp: lex_number_def split: option.splits)
    from sgn [OF 1] ipart [OF 2] fpart [OF 3] epart [OF 4] show ?thesis by simp
  qed
  show ?thesis
    by (relation "measure length") (auto dest: str num)
qed

text \<open>
  The grammar. A frame is an array or object that is still open: the elements read so
  far, the properties read so far, or the properties and the key whose value is being
  read. The mode says what may come next.
\<close>

datatype frame =
    FArr "jsval list"
  | FObj "(jsstring \<times> jsval) list"
  | FKey "(jsstring \<times> jsval) list" jsstring

datatype mode = MValue | MValueOrClose | MKeyOrClose | MKey | MColon | MAfter | MDone jsval

text \<open>A value is complete: it is the result, an element, or the value of a key.\<close>

fun complete :: "jsval \<Rightarrow> frame list \<Rightarrow> (mode \<times> frame list) option" where
  "complete v [] = Some (MDone v, [])"
| "complete v (FArr es # st) = Some (MAfter, FArr (es @ [v]) # st)"
| "complete v (FKey kvs k # st) = Some (MAfter, FObj (define_prop kvs k v) # st)"
| "complete v (FObj kvs # st) = None"

fun open_value :: "token \<Rightarrow> frame list \<Rightarrow> (mode \<times> frame list) option" where
  "open_value (TLit v) st = complete v st"
| "open_value TLBrack st = Some (MValueOrClose, FArr [] # st)"
| "open_value TLBrace st = Some (MKeyOrClose, FObj [] # st)"
| "open_value t st = None"

fun close_array :: "frame list \<Rightarrow> (mode \<times> frame list) option" where
  "close_array (FArr es # st) = complete (JArr es) st"
| "close_array st = None"

fun close_object :: "frame list \<Rightarrow> (mode \<times> frame list) option" where
  "close_object (FObj kvs # st) = complete (JObj kvs) st"
| "close_object st = None"

fun begin_key :: "token \<Rightarrow> frame list \<Rightarrow> (mode \<times> frame list) option" where
  "begin_key (TLit (JStr k)) (FObj kvs # st) = Some (MColon, FKey kvs k # st)"
| "begin_key t st = None"

fun after_value :: "token \<Rightarrow> frame list \<Rightarrow> (mode \<times> frame list) option" where
  "after_value TComma (FArr es # st) = Some (MValue, FArr es # st)"
| "after_value TComma (FObj kvs # st) = Some (MKey, FObj kvs # st)"
| "after_value TRBrack st = close_array st"
| "after_value TRBrace st = close_object st"
| "after_value t st = None"

fun step :: "mode \<Rightarrow> frame list \<Rightarrow> token \<Rightarrow> (mode \<times> frame list) option" where
  "step MValue st t = open_value t st"
| "step MValueOrClose st t = (if t = TRBrack then close_array st else open_value t st)"
| "step MKeyOrClose st t = (if t = TRBrace then close_object st else begin_key t st)"
| "step MKey st t = begin_key t st"
| "step MColon st t = (if t = TColon then Some (MValue, st) else None)"
| "step MAfter st t = after_value t st"
| "step (MDone v) st t = None"

fun parse_tokens :: "mode \<Rightarrow> frame list \<Rightarrow> token list \<Rightarrow> jsval option" where
  "parse_tokens m st [] = (case m of MDone v \<Rightarrow> Some v | _ \<Rightarrow> None)"
| "parse_tokens m st (t # ts) =
     (case step m st t of
        None \<Rightarrow> None
      | Some (m', st') \<Rightarrow> parse_tokens m' st' ts)"

text \<open>\<open>JSON.parse(s)\<close>: the value, or \<open>None\<close> for the \<open>SyntaxError\<close>.\<close>

definition JSON_parse :: "jsstring \<Rightarrow> jsval option" where
  "JSON_parse s =
     (case lex s of
        None \<Rightarrow> None
      | Some ts \<Rightarrow> parse_tokens MValue [] ts)"

section \<open>The decoder \<open>parsePost\<close> (lines 138-154)\<close>

text \<open>
  A post as the query returns it. The declared type of \<open>action\<close> is an object, but
  nothing checks it when the code runs: the value may be \<open>undefined\<close> or \<open>null\<close>.
\<close>

record post =
  post_id :: jsstring
  rawContent :: jsstring
  action :: jsval

text \<open>The body of the \<open>try\<close> block: \<open>Inl\<close> is an exception on its way to \<open>catch\<close>.\<close>

definition parse_rawContent :: "post \<Rightarrow> error + jsval" where
  "parse_rawContent p =
     (case JSON_parse (rawContent p) of
        None \<Rightarrow> Inl SyntaxError
      | Some v \<Rightarrow> Inr v)"

definition parsePost_try :: "post \<Rightarrow> error + jsval" where
  "parsePost_try p =
     (case type_in (action p) of
        Inl e \<Rightarrow> Inl e
      | Inr False \<Rightarrow> parse_rawContent p
      | Inr True \<Rightarrow>
          (case eq_microblog (get_prop (action p) (js ''type'')) of
             Inl e \<Rightarrow> Inl e
           | Inr True \<Rightarrow> Inr (action p)
           | Inr False \<Rightarrow> parse_rawContent p))"

text \<open>The object literal of the \<open>catch\<close> block.\<close>

definition unknown_post :: "jsstring \<Rightarrow> jsval" where
  "unknown_post raw = JObj [(js ''type'', JStr (js ''unknown'')), (js ''text'', JStr raw)]"

definition parsePost :: "post \<Rightarrow> error + jsval" where
  "parsePost p =
     (case parsePost_try p of
        Inl e \<Rightarrow> Inr (unknown_post (rawContent p))
      | Inr v \<Rightarrow> Inr v)"

section \<open>The render loop (lines 172-241)\<close>

text \<open>
  A transaction of the query result, with the fields the loop destructures; \<open>from_id\<close>
  is \<open>from.id\<close>.
\<close>

record transaction =
  tx_id :: jsstring
  from_id :: jsstring
  posts :: "post list"
  timestamp :: int

text \<open>
  What the inner callback returns for one post: either the \<open>Box\<close> element or the
  value at which the \<open>&&\<close> chain stopped; React shows nothing for \<open>false\<close>,
  \<open>undefined\<close>, \<open>null\<close> and the empty string. The box keeps what goes into it: the
  key, the text shown, the image when it is truthy (the argument of
  \<open>createURLFromIPFSHash\<close>, a function outside the sources at hand), and the
  transaction's id, author and time, from which name, link and date are made.
\<close>

record box =
  box_key :: jsstring
  box_tx :: jsstring
  box_from :: jsstring
  box_timestamp :: int
  box_image :: "jsval option"
  box_text :: jsval

datatype element = EVal jsval | EBox box

text \<open>\<open>const { text, image, type } = parsedPost\<close>\<close>

definition destructure :: "jsval \<Rightarrow> error + (jsval \<times> jsval \<times> jsval)" where
  "destructure v =
     (case v of
        JUndefined \<Rightarrow> Inl TypeError
      | JNull \<Rightarrow> Inl TypeError
      | _ \<Rightarrow> Inr (get_prop v (js ''text''), get_prop v (js ''image''), get_prop v (js ''type'')))"

definition render_post :: "transaction \<Rightarrow> post \<Rightarrow> error + element" where
  "render_post tx p =
     (case parsePost p of
        Inl e \<Rightarrow> Inl e
      | Inr parsedPost \<Rightarrow>
          (case destructure parsedPost of
             Inl e \<Rightarrow> Inl e
           | Inr (text_v, image_v, type_v) \<Rightarrow>
               if \<not> truthy text_v then Inr (EVal text_v)
               else
                 (case eq_microblog type_v of
                    Inl e \<Rightarrow> Inl e
                  | Inr False \<Rightarrow> Inr (EVal (JBool False))
                  | Inr True \<Rightarrow>
                      Inr (EBox \<lparr>box_key = post_id p, box_tx = tx_id tx,
                                 box_from = from_id tx, box_timestamp = timestamp tx,
                                 box_image = (if truthy image_v then Some image_v else None),
                                 box_text = text_v\<rparr>))))"

text \<open>\<open>Array.prototype.map\<close> with a callback that may throw: the first exception ends it.\<close>

fun map_throwing :: "('a \<Rightarrow> error + 'b) \<Rightarrow> 'a list \<Rightarrow> error + 'b list" where
  "map_throwing f [] = Inr []"
| "map_throwing f (x # xs) =
     (case f x of
        Inl e \<Rightarrow> Inl e
      | Inr y \<Rightarrow> (case map_throwing f xs of Inl e \<Rightarrow> Inl e | Inr ys \<Rightarrow> Inr (y # ys)))"

text \<open>
  The \<open>filter\<close> call of line 178. \<open>JACK_CENSORSHIP_LIST\<close> comes from a module outside
  the sources at hand and is a parameter; \<open>includes\<close> on strings is membership.
\<close>

definition censor :: "jsstring list \<Rightarrow> transaction list \<Rightarrow> transaction list" where
  "censor deny txs = filter (\<lambda>tx. from_id tx \<notin> set deny) txs"

definition render_transactions :: "jsstring list \<Rightarrow> transaction list \<Rightarrow> error + element list list" where
  "render_transactions deny txs =
     map_throwing (\<lambda>tx. map_throwing (render_post tx) (posts tx)) (censor deny txs)"

text \<open>
  The conditional of lines 172-241: the placeholder when nothing is loading, nothing
  failed and the result is empty, the rendered transactions otherwise.
\<close>

datatype feed = NoPostsYet | Posts "element list list"

definition ViewGraph_feed :: "bool \<Rightarrow> bool \<Rightarrow> jsstring list \<Rightarrow> transaction list \<Rightarrow> error + feed" where
  "ViewGraph_feed loading err deny txs =
     (if \<not> loading \<and> \<not> err \<and> length txs = 0 then Inr NoPostsYet
      else (case render_transactions deny txs of
              Inl e \<Rightarrow> Inl e
            | Inr rows \<Rightarrow> Inr (Posts rows)))"


section \<open>Properties of the reload effect\<close>

lemmas effect_defs = initial_state_def effect_mount_def effect_cleanup_def loadPosts_def
  chain_event_def delayedEventUpdate_def not_interval_def setTimeout_def clearTimeout_def
  advance_def fire_def

text \<open>
  Nothing assigns to \<open>interval\<close>: whatever happens after a mount, it stays
  \<open>undefined\<close>, so the test \<open>!interval\<close> in \<open>delayedEventUpdate\<close> never fails and
  \<open>clearTimeout(interval)\<close> never clears.
\<close>

lemma interval_fold_fire: "interval (fold fire ts s) = interval s"
  by (induction ts arbitrary: s) (simp_all add: fire_def loadPosts_def)

lemma interval_advance: "interval (advance t s) = interval s"
  by (simp add: advance_def Let_def interval_fold_fire)

lemma interval_occur: "interval s = None \<Longrightarrow> interval (occur d a s) = None"
  by (cases a) (simp_all add: effect_defs Let_def)

lemma interval_run: "interval s = None \<Longrightarrow> interval (run d evs s) = None"
  by (induction evs arbitrary: s) (auto simp: interval_occur interval_advance)

lemma interval_undefined: "interval (run d evs initial_state) = None"
  by (rule interval_run) (simp add: initial_state_def)

text \<open>
  Claim C1: chain events that arrive within one debounce window are coalesced, so events
  at t=0, t=1 and t=2 with a window of 12 give exactly one reload, at t=12, and no
  timer is created while one is pending.

  The effect as written does otherwise. After the component has mounted at t=0 (with
  its own first load) and the three events have arrived, three timers are pending;
  at t=12 the first has fired, and by t=14 all three have, each with its own call of
  \<open>getPosts\<close>.
\<close>

theorem three_events_three_reloads:
  "timers (run 12 [(0, Mount), (0, ChainEvent), (1, ChainEvent), (2, ChainEvent)] initial_state)
     = [(1, 12), (2, 13), (3, 14)]
   \<and> getPosts_calls
       (advance 12 (run 12 [(0, Mount), (0, ChainEvent), (1, ChainEvent), (2, ChainEvent)]
          initial_state)) = [0, 12]
   \<and> getPosts_calls
       (advance 14 (run 12 [(0, Mount), (0, ChainEvent), (1, ChainEvent), (2, ChainEvent)]
          initial_state)) = [0, 12, 13, 14]"
  by (simp add: effect_defs)

text \<open>
  Claim C4: after teardown the event filter is gone and the pending debounce timer is
  cleared without firing, so neither a chain event on the stale filter nor a timer
  scheduled before teardown causes a reload or changes any state.

  The first half holds: with the listener removed, a chain event leaves the state as it
  is. The second half does not: the cleanup calls \<open>clearTimeout\<close> on a variable that
  is still \<open>undefined\<close>, so the timer set by the event at t=1 stays in the queue after
  the teardown at t=2 and calls \<open>getPosts\<close> at t=13.
\<close>

theorem teardown_keeps_timer:
  "timers (run 12 [(0, Mount), (1, ChainEvent), (2, Teardown)] initial_state) = [(1, 13)]
   \<and> chain_event 12 (run 12 [(0, Mount), (1, ChainEvent), (2, Teardown)] initial_state)
       = run 12 [(0, Mount), (1, ChainEvent), (2, Teardown)] initial_state
   \<and> getPosts_calls (run 12 [(0, Mount), (1, ChainEvent), (2, Teardown)] initial_state) = [0]
   \<and> getPosts_calls
       (advance 13 (run 12 [(0, Mount), (1, ChainEvent), (2, Teardown)] initial_state))
       = [0, 13]"
  by (simp add: effect_defs)

section \<open>Properties of the decoder\<close>

text \<open>Values of \<open>JSON.parse\<close> on the texts used below, and the two ways out of \<open>parsePost\<close>.\<close>

lemmas lex_defs = js_def is_ws_def is_digit_def starts_with_def hex4_def hex_val_def
  escape_def cons_fst_def lex_number_def lex_sign_def lex_int_def lex_frac_def lex_exp_def
  lex_exp_sign_def number_value_def digits_val_def

lemma JSON_parse_hello: "JSON_parse (js ''hello'') = None"
  by (simp add: JSON_parse_def lex_defs)

lemma JSON_parse_42: "JSON_parse (js ''42'') = Some (JNum 42)"
  by (simp add: JSON_parse_def lex_defs)

lemma JSON_parse_microblog_hello:
  \<open>JSON_parse (js ''{"type":"microblog","text":"hello"}'')
     = Some (JObj [(js ''type'', JStr (js ''microblog'')), (js ''text'', JStr (js ''hello''))])\<close>
  by (simp add: JSON_parse_def lex_defs)

lemma JSON_parse_microblog_empty:
  \<open>JSON_parse (js ''{"type":"microblog","text":""}'')
     = Some (JObj [(js ''type'', JStr (js ''microblog'')), (js ''text'', JStr [])])\<close>
  by (simp add: JSON_parse_def lex_defs)

lemma JSON_parse_accepts:
  \<open>JSON_parse (js ''null'') = Some JNull\<close>
  \<open>JSON_parse (js '' [ ] '') = Some (JArr [])\<close>
  \<open>JSON_parse (js ''{"a":1,"b":[true,-2.5e1],"a":"x"}'')
     = Some (JObj [(js ''a'', JStr (js ''x'')), (js ''b'', JArr [JBool True, JNum (- 25)])])\<close>
  by (simp_all add: JSON_parse_def lex_defs)

lemma JSON_parse_rejects:
  \<open>JSON_parse [] = None\<close>
  \<open>JSON_parse (js ''[1,]'') = None\<close>
  \<open>JSON_parse (js ''{"a":1,}'') = None\<close>
  \<open>JSON_parse (js ''01'') = None\<close>
  \<open>JSON_parse (js ''1 2'') = None\<close>
  \<open>JSON_parse (js ''{"a"}'') = None\<close>
  \<open>JSON_parse (js ''"hello'') = None\<close>
  by (simp_all add: JSON_parse_def lex_defs)

lemma JSON_parse_empty_object: "JSON_parse (js ''{}'') = Some (JObj [])"
  by (simp add: JSON_parse_def lex_defs)

lemma parsePost_returns: "\<exists>v. parsePost p = Inr v"
  by (simp add: parsePost_def split: sum.split)

lemma parsePost_caught:
  "parsePost_try p = Inl e \<Longrightarrow> parsePost p = Inr (unknown_post (rawContent p))"
  by (simp add: parsePost_def)

lemma parsePost_passed: "parsePost_try p = Inr v \<Longrightarrow> parsePost p = Inr v"
  by (simp add: parsePost_def)

lemma parsePost_try_slow:
  assumes "type_in (action p) = Inr False
     \<or> (type_in (action p) = Inr True \<and> eq_microblog (get_prop (action p) (js ''type'')) = Inr False)"
  shows "parsePost_try p = parse_rawContent p"
  using assms by (auto simp: parsePost_try_def)

lemma parsePost_slow:
  assumes "type_in (action p) = Inr False
     \<or> (type_in (action p) = Inr True \<and> eq_microblog (get_prop (action p) (js ''type'')) = Inr False)"
  shows "parsePost p =
     (case JSON_parse (rawContent p) of
        None \<Rightarrow> Inr (unknown_post (rawContent p))
      | Some v \<Rightarrow> Inr v)"
  by (simp add: parsePost_def parsePost_try_slow [OF assms] parse_rawContent_def split: option.split)

lemma type_in_JObj: "type_in (JObj kvs) = Inr (map_of kvs (js ''type'') \<noteq> None)"
  by (simp add: type_in_def map_of_eq_None_iff)

lemma get_prop_JObj: "map_of kvs k = Some v \<Longrightarrow> get_prop (JObj kvs) k = v"
  by (simp add: get_prop_def)

lemma unknown_post_fields:
  "get_prop (unknown_post raw) (js ''type'') = JStr (js ''unknown'')"
  "get_prop (unknown_post raw) (js ''text'') = JStr raw"
  "get_prop (unknown_post raw) (js ''image'') = JUndefined"
  "get_prop (unknown_post raw) (js ''replyTo'') = JUndefined"
  by (simp_all add: unknown_post_def get_prop_def js_def)

lemma eq_microblog_unknown: "eq_microblog (JStr (js ''unknown'')) = Inr False"
  by (simp add: eq_microblog_def js_def)

lemma eq_microblog_JStr: "eq_microblog (JStr s) = Inr (s = js ''microblog'')"
  by (simp add: eq_microblog_def)

lemma parsePost_try_hello:
  "parsePost_try \<lparr>post_id = i, rawContent = js ''hello'', action = JObj []\<rparr> = Inl SyntaxError"
  by (simp add: parsePost_try_def type_in_def parse_rawContent_def JSON_parse_hello)

lemma parsePost_microblog_hello:
  \<open>parsePost \<lparr>post_id = i, rawContent = js ''{"type":"microblog","text":"hello"}'',
      action = JObj []\<rparr>
   = Inr (JObj [(js ''type'', JStr (js ''microblog'')), (js ''text'', JStr (js ''hello''))])\<close>
  by (simp add: parsePost_def parsePost_try_def type_in_def parse_rawContent_def
      JSON_parse_microblog_hello)

lemma parsePost_microblog_empty:
  \<open>parsePost \<lparr>post_id = i, rawContent = js ''{"type":"microblog","text":""}'',
      action = JObj []\<rparr>
   = Inr (JObj [(js ''type'', JStr (js ''microblog'')), (js ''text'', JStr [])])\<close>
  by (simp add: parsePost_def parsePost_try_def type_in_def parse_rawContent_def
      JSON_parse_microblog_empty)

text \<open>
  Claim C2, as amended: \<open>parsePost\<close> never raises. A microblog action is returned as
  it is, whatever the raw content. Otherwise, whenever the \<open>try\<close> block raises (the
  action is no object, the comparison raises, or the raw content is not JSON), the
  result is the object with \<open>type\<close> \<open>unknown\<close> and \<open>text\<close> the raw content,
  unchanged, and no other field. Otherwise the value parsed from the raw content is
  returned as it is: no shape is checked and no field is extracted. One half of the
  invariant holds: a result of type \<open>unknown\<close> is either that fallback object after a
  raise, or the parsed payload itself, whose type is then not \<open>microblog\<close>. The other
  half does not: a payload that is JSON of another shape, such as \<open>{}\<close>, is returned as
  parsed, with no type at all.
\<close>

theorem parsePost_total:
  \<open>(\<exists>v. parsePost p = Inr v)
   \<and> (type_in (action p) = Inr True
        \<and> eq_microblog (get_prop (action p) (js ''type'')) = Inr True \<longrightarrow>
        parsePost p = Inr (action p))
   \<and> (\<forall>e. parsePost_try p = Inl e
          \<or> type_in (action p) = Inl e
          \<or> (type_in (action p) = Inr True
              \<and> eq_microblog (get_prop (action p) (js ''type'')) = Inl e) \<longrightarrow>
        parsePost p
          = Inr (JObj [(js ''type'', JStr (js ''unknown'')), (js ''text'', JStr (rawContent p))]))
   \<and> (type_in (action p) = Inr False
        \<or> (type_in (action p) = Inr True
            \<and> eq_microblog (get_prop (action p) (js ''type'')) = Inr False) \<longrightarrow>
        parsePost p =
          (case JSON_parse (rawContent p) of
             None \<Rightarrow>
               Inr (JObj [(js ''type'', JStr (js ''unknown'')),
                          (js ''text'', JStr (rawContent p))])
           | Some v \<Rightarrow> Inr v))
   \<and> (\<forall>v. parsePost p = Inr v \<and> get_prop v (js ''type'') = JStr (js ''unknown'') \<longrightarrow>
          (\<exists>e. parsePost_try p = Inl e)
            \<and> v = JObj [(js ''type'', JStr (js ''unknown'')), (js ''text'', JStr (rawContent p))]
          \<or> JSON_parse (rawContent p) = Some v
            \<and> eq_microblog (get_prop v (js ''type'')) = Inr False)
   \<and> parsePost \<lparr>post_id = i, rawContent = js ''{}'', action = JObj []\<rparr> = Inr (JObj [])
   \<and> get_prop (JObj []) (js ''type'') = JUndefined\<close>
proof (intro conjI allI impI)
  show "\<exists>v. parsePost p = Inr v" by (rule parsePost_returns)
next
  assume "type_in (action p) = Inr True
        \<and> eq_microblog (get_prop (action p) (js ''type'')) = Inr True"
  then show "parsePost p = Inr (action p)"
    by (simp add: parsePost_def parsePost_try_def)
next
  fix e
  assume "parsePost_try p = Inl e
          \<or> type_in (action p) = Inl e
          \<or> (type_in (action p) = Inr True
              \<and> eq_microblog (get_prop (action p) (js ''type'')) = Inl e)"
  then have "\<exists>e'. parsePost_try p = Inl e'"
    by (auto simp: parsePost_try_def)
  then show "parsePost p
      = Inr (JObj [(js ''type'', JStr (js ''unknown'')), (js ''text'', JStr (rawContent p))])"
    by (auto simp: parsePost_caught unknown_post_def)
next
  assume "type_in (action p) = Inr False
        \<or> (type_in (action p) = Inr True
            \<and> eq_microblog (get_prop (action p) (js ''type'')) = Inr False)"
  then show "parsePost p =
          (case JSON_parse (rawContent p) of
             None \<Rightarrow>
               Inr (JObj [(js ''type'', JStr (js ''unknown'')),
                          (js ''text'', JStr (rawContent p))])
           | Some v \<Rightarrow> Inr v)"
    by (simp add: parsePost_slow unknown_post_def split: option.split)
next
  fix v
  assume a: "parsePost p = Inr v \<and> get_prop v (js ''type'') = JStr (js ''unknown'')"
  show "(\<exists>e. parsePost_try p = Inl e)
            \<and> v = JObj [(js ''type'', JStr (js ''unknown'')), (js ''text'', JStr (rawContent p))]
          \<or> JSON_parse (rawContent p) = Some v
            \<and> eq_microblog (get_prop v (js ''type'')) = Inr False"
  proof (cases "parsePost_try p")
    case (Inl e)
    with a have "v = JObj [(js ''type'', JStr (js ''unknown'')), (js ''text'', JStr (rawContent p))]"
      by (simp add: parsePost_def unknown_post_def)
    with Inl show ?thesis by blast
  next
    case (Inr w)
    with a have w: "w = v" by (simp add: parsePost_def)
    from a have ne: "eq_microblog (get_prop v (js ''type'')) = Inr False"
      by (simp add: eq_microblog_unknown)
    have "JSON_parse (rawContent p) = Some v"
    proof (cases "type_in (action p) = Inr True
        \<and> eq_microblog (get_prop (action p) (js ''type'')) = Inr True")
      case True
      then have "parsePost_try p = Inr (action p)" by (simp add: parsePost_try_def)
      with Inr w have "action p = v" by simp
      with True ne show ?thesis by simp
    next
      case False
      with Inr w have "parse_rawContent p = Inr v"
        by (auto simp: parsePost_try_def split: sum.splits bool.splits)
      then show ?thesis
        by (simp add: parse_rawContent_def split: option.splits)
    qed
    with ne show ?thesis by blast
  qed
next
  show \<open>parsePost \<lparr>post_id = i, rawContent = js ''{}'', action = JObj []\<rparr> = Inr (JObj [])\<close>
    by (simp add: parsePost_def parsePost_try_def type_in_def parse_rawContent_def
        JSON_parse_empty_object)
next
  show "get_prop (JObj []) (js ''type'') = JUndefined"
    by (simp add: get_prop_def)
qed

theorem parsePost_total_witness:
  "parsePost \<lparr>post_id = js ''p1'', rawContent = js ''hello'', action = JObj []\<rparr>
     = Inr (JObj [(js ''type'', JStr (js ''unknown'')), (js ''text'', JStr (js ''hello''))])
   \<and> parsePost \<lparr>post_id = js ''p1'', rawContent = js ''hello'', action = JNull\<rparr>
     = Inr (JObj [(js ''type'', JStr (js ''unknown'')), (js ''text'', JStr (js ''hello''))])
   \<and> parsePost \<lparr>post_id = js ''p1'', rawContent = js ''42'',
        action = JObj [(js ''type'', JStr (js ''microblog'')), (js ''text'', JStr (js ''hi''))]\<rparr>
     = Inr (JObj [(js ''type'', JStr (js ''microblog'')), (js ''text'', JStr (js ''hi''))])"
proof -
  have fast: "type_in (JObj [(js ''type'', JStr (js ''microblog'')), (js ''text'', JStr (js ''hi''))])
        = Inr True
      \<and> eq_microblog (get_prop (JObj [(js ''type'', JStr (js ''microblog'')),
            (js ''text'', JStr (js ''hi''))]) (js ''type'')) = Inr True"
    by (simp add: type_in_def get_prop_def eq_microblog_def)
  from parsePost_total [of "\<lparr>post_id = js ''p1'', rawContent = js ''hello'', action = JObj []\<rparr>"]
  have 1: "parsePost \<lparr>post_id = js ''p1'', rawContent = js ''hello'', action = JObj []\<rparr>
     = Inr (JObj [(js ''type'', JStr (js ''unknown'')), (js ''text'', JStr (js ''hello''))])"
    by (simp add: type_in_def JSON_parse_hello)
  from parsePost_total [of "\<lparr>post_id = js ''p1'', rawContent = js ''hello'', action = JNull\<rparr>"]
  have 2: "parsePost \<lparr>post_id = js ''p1'', rawContent = js ''hello'', action = JNull\<rparr>
     = Inr (JObj [(js ''type'', JStr (js ''unknown'')), (js ''text'', JStr (js ''hello''))])"
    by (simp add: type_in_def)
  from parsePost_total [of "\<lparr>post_id = js ''p1'', rawContent = js ''42'',
        action = JObj [(js ''type'', JStr (js ''microblog'')), (js ''text'', JStr (js ''hi''))]\<rparr>"]
    fast
  have 3: "parsePost \<lparr>post_id = js ''p1'', rawContent = js ''42'',
        action = JObj [(js ''type'', JStr (js ''microblog'')), (js ''text'', JStr (js ''hi''))]\<rparr>
     = Inr (JObj [(js ''type'', JStr (js ''microblog'')), (js ''text'', JStr (js ''hi''))])"
    by simp
  from 1 2 3 show ?thesis by blast
qed

text \<open>
  Claim C2 as it was stated also asks for the \<open>unknown\<close> object when the raw content
  has the wrong shape. The text \<open>42\<close> is JSON but no post; the decoder returns the
  number.
\<close>

theorem parsePost_wrong_shape:
  "parsePost \<lparr>post_id = js ''p1'', rawContent = js ''42'', action = JObj []\<rparr> = Inr (JNum 42)
   \<and> JNum 42 \<noteq> JObj [(js ''type'', JStr (js ''unknown'')), (js ''text'', JStr (js ''42''))]
   \<and> JNum 42 \<noteq> unknown_post (js ''42'')"
  by (simp add: parsePost_def parsePost_try_def type_in_def parse_rawContent_def JSON_parse_42
      unknown_post_def)

text \<open>
  Claim C6: when the action is present and its \<open>type\<close> is \<open>microblog\<close>, the decoder
  returns the action as it is, whatever the raw content.
\<close>

theorem parsePost_fast_path:
  assumes "map_of kvs (js ''type'') = Some (JStr (js ''microblog''))"
  shows "parsePost \<lparr>post_id = i, rawContent = raw, action = JObj kvs\<rparr> = Inr (JObj kvs)"
  using assms
  by (simp add: parsePost_def parsePost_try_def type_in_JObj get_prop_JObj eq_microblog_JStr)

theorem parsePost_fast_path_witness:
  "parsePost \<lparr>post_id = js ''p1'', rawContent = js ''hello'',
     action = JObj [(js ''type'', JStr (js ''microblog'')), (js ''text'', JStr (js ''hi''))]\<rparr>
   = Inr (JObj [(js ''type'', JStr (js ''microblog'')), (js ''text'', JStr (js ''hi''))])"
proof -
  have "map_of [(js ''type'', JStr (js ''microblog'')), (js ''text'', JStr (js ''hi''))]
      (js ''type'') = Some (JStr (js ''microblog''))"
    by simp
  from parsePost_fast_path [OF this] show ?thesis .
qed

text \<open>
  Claim C8: the fast path needs \<open>action.type == 'microblog'\<close>. For an action that is an
  object whose \<open>type\<close> is missing, or compares unequal to \<open>microblog\<close> (any other
  string, \<open>unknown\<close> among them), the result depends on the raw content alone: the
  parsed value when it is JSON, and otherwise the object with \<open>type\<close> \<open>unknown\<close> and
  \<open>text\<close> the raw content.
\<close>

theorem parsePost_other_type:
  assumes "action p = JObj kvs"
    and "map_of kvs (js ''type'') = None
         \<or> (\<exists>t. map_of kvs (js ''type'') = Some t \<and> eq_microblog t = Inr False)"
  shows "parsePost p =
           (case JSON_parse (rawContent p) of
              None \<Rightarrow>
                Inr (JObj [(js ''type'', JStr (js ''unknown'')),
                           (js ''text'', JStr (rawContent p))])
            | Some v \<Rightarrow> Inr v)
         \<and> (\<forall>s. eq_microblog (JStr s) = Inr (s = js ''microblog''))"
proof
  from assms
  have "type_in (action p) = Inr False
     \<or> (type_in (action p) = Inr True \<and> eq_microblog (get_prop (action p) (js ''type'')) = Inr False)"
    by (auto simp: type_in_JObj get_prop_JObj)
  then show "parsePost p =
           (case JSON_parse (rawContent p) of
              None \<Rightarrow>
                Inr (JObj [(js ''type'', JStr (js ''unknown'')),
                           (js ''text'', JStr (rawContent p))])
            | Some v \<Rightarrow> Inr v)"
    by (simp add: parsePost_slow unknown_post_def split: option.split)
next
  show "\<forall>s. eq_microblog (JStr s) = Inr (s = js ''microblog'')"
    by (simp add: eq_microblog_JStr)
qed

theorem parsePost_other_type_witness:
  \<open>parsePost \<lparr>post_id = js ''p1'', rawContent = js ''hello'',
      action = JObj [(js ''type'', JStr (js ''unknown'')), (js ''text'', JStr (js ''hi''))]\<rparr>
     = Inr (JObj [(js ''type'', JStr (js ''unknown'')), (js ''text'', JStr (js ''hello''))])
   \<and> parsePost \<lparr>post_id = js ''p1'', rawContent = js ''{"type":"microblog","text":"hello"}'',
      action = JObj [(js ''type'', JStr (js ''unknown'')), (js ''text'', JStr (js ''hi''))]\<rparr>
     = Inr (JObj [(js ''type'', JStr (js ''microblog'')), (js ''text'', JStr (js ''hello''))])\<close>
proof -
  have a: "action \<lparr>post_id = i, rawContent = raw,
      action = JObj [(js ''type'', JStr (js ''unknown'')), (js ''text'', JStr (js ''hi''))]\<rparr>
     = JObj [(js ''type'', JStr (js ''unknown'')), (js ''text'', JStr (js ''hi''))]" for i raw
    by simp
  have b: "map_of [(js ''type'', JStr (js ''unknown'')), (js ''text'', JStr (js ''hi''))]
      (js ''type'') = None
    \<or> (\<exists>t. map_of [(js ''type'', JStr (js ''unknown'')), (js ''text'', JStr (js ''hi''))]
      (js ''type'') = Some t \<and> eq_microblog t = Inr False)"
    by (simp add: eq_microblog_unknown)
  from parsePost_other_type [OF a b, of "js ''p1''" "js ''hello''"]
    parsePost_other_type [OF a b, of "js ''p1''" \<open>js ''{"type":"microblog","text":"hello"}''\<close>]
  show ?thesis
    by (simp add: JSON_parse_hello JSON_parse_microblog_hello)
qed

text \<open>
  Claim C10: when the action is \<open>undefined\<close> or \<open>null\<close>, the \<open>in\<close> test raises a
  \<open>TypeError\<close>, the handler takes it, and the result is the object with \<open>type\<close>
  \<open>unknown\<close> and \<open>text\<close> the raw content, whatever that content is.
\<close>

theorem parsePost_absent_action:
  assumes "action p = JUndefined \<or> action p = JNull"
  shows "type_in (action p) = Inl TypeError
     \<and> parsePost_try p = Inl TypeError
     \<and> parsePost p
         = Inr (JObj [(js ''type'', JStr (js ''unknown'')), (js ''text'', JStr (rawContent p))])"
proof -
  from assms have t: "type_in (action p) = Inl TypeError"
    by (auto simp: type_in_def)
  then have "parsePost_try p = Inl TypeError"
    by (simp add: parsePost_try_def)
  with t show ?thesis by (simp add: parsePost_caught unknown_post_def)
qed

theorem parsePost_absent_action_witness:
  \<open>parsePost \<lparr>post_id = js ''p1'', rawContent = js ''{"type":"microblog","text":"hello"}'',
      action = JUndefined\<rparr>
     = Inr (JObj [(js ''type'', JStr (js ''unknown'')),
                  (js ''text'', JStr (js ''{"type":"microblog","text":"hello"}''))])
   \<and> parsePost \<lparr>post_id = js ''p1'', rawContent = js ''hello'', action = JNull\<rparr>
     = Inr (JObj [(js ''type'', JStr (js ''unknown'')), (js ''text'', JStr (js ''hello''))])\<close>
  using parsePost_absent_action
      [of \<open>\<lparr>post_id = js ''p1'', rawContent = js ''{"type":"microblog","text":"hello"}'',
      action = JUndefined\<rparr>\<close>]
    parsePost_absent_action [of "\<lparr>post_id = js ''p1'', rawContent = js ''hello'', action = JNull\<rparr>"]
  by simp

section \<open>Properties of the filter and the render loop\<close>

lemma map_throwing_append:
  "map_throwing f (xs @ ys) =
     (case map_throwing f xs of
        Inl e \<Rightarrow> Inl e
      | Inr a \<Rightarrow> (case map_throwing f ys of Inl e \<Rightarrow> Inl e | Inr b \<Rightarrow> Inr (a @ b)))"
  by (induction xs) (auto split: sum.splits)

lemma destructure_value:
  "v \<noteq> JUndefined \<Longrightarrow> v \<noteq> JNull \<Longrightarrow>
   destructure v = Inr (get_prop v (js ''text''), get_prop v (js ''image''), get_prop v (js ''type''))"
  by (cases v) (simp_all add: destructure_def)

lemma destructure_Inr:
  "destructure v = Inr (a, b, c) \<Longrightarrow>
   a = get_prop v (js ''text'') \<and> b = get_prop v (js ''image'') \<and> c = get_prop v (js ''type'')"
  by (cases v) (simp_all add: destructure_def)

lemma render_post_caught:
  assumes "parsePost_try p = Inl e"
  shows "render_post tx p = Inr (EVal (if rawContent p = [] then JStr [] else JBool False))"
  by (simp add: render_post_def parsePost_caught [OF assms] destructure_def unknown_post_def
      get_prop_def js_def truthy_def eq_microblog_def)

lemma render_post_microblog_hello:
  \<open>render_post \<lparr>tx_id = js ''t1'', from_id = js ''0xGOOD'', posts = [], timestamp = 7\<rparr>
      \<lparr>post_id = js ''p1'', rawContent = js ''{"type":"microblog","text":"hello"}'',
        action = JObj []\<rparr>
    = Inr (EBox \<lparr>box_key = js ''p1'', box_tx = js ''t1'', box_from = js ''0xGOOD'',
                 box_timestamp = 7, box_image = None, box_text = JStr (js ''hello'')\<rparr>)\<close>
  using parsePost_microblog_hello [of "js ''p1''"]
  by (simp add: render_post_def destructure_def get_prop_def truthy_def eq_microblog_def js_def)

lemma render_transactions_append:
  "render_transactions deny (xs @ t # ys) =
     (case render_transactions deny xs of
        Inl e \<Rightarrow> Inl e
      | Inr a \<Rightarrow>
          (case render_transactions deny [t] of
             Inl e \<Rightarrow> Inl e
           | Inr r \<Rightarrow>
               (case render_transactions deny ys of
                  Inl e \<Rightarrow> Inl e
                | Inr b \<Rightarrow> Inr (a @ r @ b))))"
proof -
  have "censor deny (xs @ t # ys) = censor deny xs @ censor deny [t] @ censor deny ys"
    by (simp add: censor_def)
  then show ?thesis
    by (simp add: render_transactions_def map_throwing_append split: sum.splits)
qed

text \<open>
  The destructuring of line 182 is outside the \<open>try\<close> block: for a payload that is
  the JSON text \<open>null\<close> it raises.
\<close>

lemma render_post_null_payload:
  "render_post tx \<lparr>post_id = i, rawContent = js ''null'', action = JObj []\<rparr> = Inl TypeError"
  by (simp add: render_post_def parsePost_def parsePost_try_def type_in_def
      parse_rawContent_def JSON_parse_accepts destructure_def)

lemma censor_drop_author:
  "A \<in> set deny \<Longrightarrow> censor deny (filter (\<lambda>tx. from_id tx \<noteq> A) txs) = censor deny txs"
  by (induction txs) (auto simp: censor_def)

text \<open>
  Claim C3, as amended: a post whose decoding fails is decoded to the \<open>unknown\<close>
  object with its raw content as text; the render callback raises nothing on it and
  gives no box for it, because a box needs the type \<open>microblog\<close>: its place in the
  output holds \<open>false\<close> (or the empty string, when the raw content is empty). The
  elements of the posts before and after it are what they are without it, and the
  rows of the other transactions are those that they give on their own.
\<close>

theorem decode_failure_not_rendered:
  assumes "parsePost_try p = Inl e"
  shows "parsePost p = Inr (unknown_post (rawContent p))
     \<and> render_post tx p = Inr (EVal (if rawContent p = [] then JStr [] else JBool False))
     \<and> map_throwing (render_post tx) (ps @ p # qs) =
         (case map_throwing (render_post tx) ps of
            Inl e \<Rightarrow> Inl e
          | Inr a \<Rightarrow>
              (case map_throwing (render_post tx) qs of
                 Inl e \<Rightarrow> Inl e
               | Inr b \<Rightarrow>
                   Inr (a @ EVal (if rawContent p = [] then JStr [] else JBool False) # b)))
     \<and> render_transactions deny (before @ t # after) =
         (case render_transactions deny before of
            Inl e \<Rightarrow> Inl e
          | Inr a \<Rightarrow>
              (case render_transactions deny [t] of
                 Inl e \<Rightarrow> Inl e
               | Inr r \<Rightarrow>
                   (case render_transactions deny after of
                      Inl e \<Rightarrow> Inl e
                    | Inr b \<Rightarrow> Inr (a @ r @ b))))"
proof (intro conjI)
  show "parsePost p = Inr (unknown_post (rawContent p))"
    by (rule parsePost_caught [OF assms])
  show "render_post tx p = Inr (EVal (if rawContent p = [] then JStr [] else JBool False))"
    by (rule render_post_caught [OF assms])
  then show "map_throwing (render_post tx) (ps @ p # qs) =
         (case map_throwing (render_post tx) ps of
            Inl e \<Rightarrow> Inl e
          | Inr a \<Rightarrow>
              (case map_throwing (render_post tx) qs of
                 Inl e \<Rightarrow> Inl e
               | Inr b \<Rightarrow>
                   Inr (a @ EVal (if rawContent p = [] then JStr [] else JBool False) # b)))"
    by (simp add: map_throwing_append split: sum.splits)
  show "render_transactions deny (before @ t # after) =
         (case render_transactions deny before of
            Inl e \<Rightarrow> Inl e
          | Inr a \<Rightarrow>
              (case render_transactions deny [t] of
                 Inl e \<Rightarrow> Inl e
               | Inr r \<Rightarrow>
                   (case render_transactions deny after of
                      Inl e \<Rightarrow> Inl e
                    | Inr b \<Rightarrow> Inr (a @ r @ b))))"
    by (rule render_transactions_append)
qed

theorem decode_failure_not_rendered_witness:
  "parsePost \<lparr>post_id = js ''p1'', rawContent = js ''hello'', action = JObj []\<rparr>
     = Inr (JObj [(js ''type'', JStr (js ''unknown'')), (js ''text'', JStr (js ''hello''))])
   \<and> render_post \<lparr>tx_id = js ''t1'', from_id = js ''0xGOOD'', posts = [], timestamp = 0\<rparr>
        \<lparr>post_id = js ''p1'', rawContent = js ''hello'', action = JObj []\<rparr>
     = Inr (EVal (JBool False))"
proof -
  have "parsePost_try \<lparr>post_id = js ''p1'', rawContent = js ''hello'', action = JObj []\<rparr>
          = Inl SyntaxError"
    by (simp add: parsePost_try_def type_in_def parse_rawContent_def JSON_parse_hello)
  from decode_failure_not_rendered [OF this,
      of "\<lparr>tx_id = js ''t1'', from_id = js ''0xGOOD'', posts = [], timestamp = 0\<rparr>"]
  show ?thesis by (simp add: unknown_post_def js_def)
qed

text \<open>
  Claim C3 as it was stated has the post with payload \<open>hello\<close> included in the
  rendered output. With the author \<open>0xGOOD\<close> outside the deny-list, the output for
  that transaction is the single value \<open>false\<close>, which shows nothing.
\<close>

theorem hello_post_renders_no_box:
  "render_transactions [js ''0xBAD'']
     [\<lparr>tx_id = js ''t1'', from_id = js ''0xGOOD'',
       posts = [\<lparr>post_id = js ''p1'', rawContent = js ''hello'', action = JObj []\<rparr>],
       timestamp = 0\<rparr>]
   = Inr [[EVal (JBool False)]]
   \<and> ViewGraph_feed False False [js ''0xBAD'']
     [\<lparr>tx_id = js ''t1'', from_id = js ''0xGOOD'',
       posts = [\<lparr>post_id = js ''p1'', rawContent = js ''hello'', action = JObj []\<rparr>],
       timestamp = 0\<rparr>]
   = Inr (Posts [[EVal (JBool False)]])"
proof -
  have kept: "censor [js ''0xBAD''] [tx] = [tx]" if "from_id tx = js ''0xGOOD''" for tx
    using that by (simp add: censor_def js_def)
  have slot: "render_post tx \<lparr>post_id = js ''p1'', rawContent = js ''hello'', action = JObj []\<rparr>
      = Inr (EVal (JBool False))" for tx
    using render_post_caught [OF parsePost_try_hello, where tx = tx and i1 = "js ''p1''"]
    by (simp add: js_def)
  show ?thesis
    by (simp add: ViewGraph_feed_def render_transactions_def kept slot)
qed

text \<open>
  Claim C5: for an author on the deny-list, no transaction of that author is in the
  filtered list, whatever the input and its order; what is rendered (or raised) is the
  same as for the input without that author's transactions, so their content reaches
  neither the decoder nor the output; and when the only transaction is one of that
  author, the rendered output is empty.
\<close>

theorem censored_author_excluded:
  assumes "A \<in> set deny"
  shows "(\<forall>tx \<in> set (censor deny txs). from_id tx \<noteq> A)
     \<and> render_transactions deny txs
         = render_transactions deny (filter (\<lambda>tx. from_id tx \<noteq> A) txs)
     \<and> (from_id tx = A \<longrightarrow>
          render_transactions deny [tx] = Inr []
          \<and> ViewGraph_feed loading err deny [tx] = Inr (Posts []))"
proof (intro conjI ballI impI)
  fix t assume "t \<in> set (censor deny txs)"
  with assms show "from_id t \<noteq> A" by (auto simp: censor_def)
next
  show "render_transactions deny txs
         = render_transactions deny (filter (\<lambda>tx. from_id tx \<noteq> A) txs)"
    by (simp add: render_transactions_def censor_drop_author [OF assms])
next
  assume "from_id tx = A"
  with assms show "render_transactions deny [tx] = Inr []"
    by (simp add: render_transactions_def censor_def)
next
  assume "from_id tx = A"
  with assms show "ViewGraph_feed loading err deny [tx] = Inr (Posts [])"
    by (simp add: ViewGraph_feed_def render_transactions_def censor_def)
qed

theorem censored_author_excluded_witness:
  \<open>render_transactions [js ''0xBAD'']
     [\<lparr>tx_id = js ''t1'', from_id = js ''0xBAD'',
       posts = [\<lparr>post_id = js ''p1'',
                 rawContent = js ''{"type":"microblog","text":"hello"}'',
                 action = JObj []\<rparr>],
       timestamp = 0\<rparr>] = Inr []
   \<and> ViewGraph_feed False False [js ''0xBAD'']
     [\<lparr>tx_id = js ''t1'', from_id = js ''0xBAD'',
       posts = [\<lparr>post_id = js ''p1'',
                 rawContent = js ''{"type":"microblog","text":"hello"}'',
                 action = JObj []\<rparr>],
       timestamp = 0\<rparr>] = Inr (Posts [])\<close>
proof -
  have "js ''0xBAD'' \<in> set [js ''0xBAD'']" by simp
  from censored_author_excluded [OF this, where loading = False and err = False and tx =
      \<open>\<lparr>tx_id = js ''t1'', from_id = js ''0xBAD'',
       posts = [\<lparr>post_id = js ''p1'',
                 rawContent = js ''{"type":"microblog","text":"hello"}'',
                 action = JObj []\<rparr>],
       timestamp = 0\<rparr>\<close>]
  show ?thesis by simp
qed

text \<open>
  Claim C7: filtering twice with one deny-list is filtering once, and the transactions
  that remain are those of the input whose author is not listed, in the order of the
  input.
\<close>

theorem censor_idempotent_stable:
  "censor deny (censor deny txs) = censor deny txs
   \<and> subseq (censor deny txs) txs
   \<and> set (censor deny txs) = {tx \<in> set txs. from_id tx \<notin> set deny}"
  by (auto simp: censor_def)

theorem censor_idempotent_stable_witness:
  "censor [js ''0xBAD'']
     (censor [js ''0xBAD'']
        [\<lparr>tx_id = js ''t1'', from_id = js ''0xA'', posts = [], timestamp = 3\<rparr>,
         \<lparr>tx_id = js ''t2'', from_id = js ''0xBAD'', posts = [], timestamp = 2\<rparr>,
         \<lparr>tx_id = js ''t3'', from_id = js ''0xB'', posts = [], timestamp = 1\<rparr>])
   = [\<lparr>tx_id = js ''t1'', from_id = js ''0xA'', posts = [], timestamp = 3\<rparr>,
      \<lparr>tx_id = js ''t3'', from_id = js ''0xB'', posts = [], timestamp = 1\<rparr>]"
  using censor_idempotent_stable [of "[js ''0xBAD'']"
        "[\<lparr>tx_id = js ''t1'', from_id = js ''0xA'', posts = [], timestamp = 3\<rparr>,
         \<lparr>tx_id = js ''t2'', from_id = js ''0xBAD'', posts = [], timestamp = 2\<rparr>,
         \<lparr>tx_id = js ''t3'', from_id = js ''0xB'', posts = [], timestamp = 1\<rparr>]"]
  by (simp add: censor_def js_def)

text \<open>
  Claim C9: the render callback gives a box for a post only when the decoded text is
  truthy and the decoded type compares equal to \<open>microblog\<close>; when the decoded text is
  the empty string it gives the empty string, which shows nothing, whatever the type.
\<close>

theorem render_post_box_only_microblog:
  "(render_post tx p = Inr (EBox b) \<longrightarrow>
      (\<exists>v. parsePost p = Inr v
           \<and> truthy (get_prop v (js ''text''))
           \<and> eq_microblog (get_prop v (js ''type'')) = Inr True
           \<and> box_text b = get_prop v (js ''text'')))
   \<and> (parsePost p = Inr v \<and> get_prop v (js ''text'') = JStr [] \<longrightarrow>
        render_post tx p = Inr (EVal (JStr [])))"
proof (intro conjI impI)
  assume r: "render_post tx p = Inr (EBox b)"
  obtain v where v: "parsePost p = Inr v" using parsePost_returns by blast
  from r v obtain x y z where d: "destructure v = Inr (x, y, z)"
    by (auto simp: render_post_def split: sum.splits)
  from destructure_Inr [OF d] r v d
  have "truthy (get_prop v (js ''text''))
      \<and> eq_microblog (get_prop v (js ''type'')) = Inr True
      \<and> box_text b = get_prop v (js ''text'')"
    by (auto simp: render_post_def split: sum.splits bool.splits if_splits)
  with v show "\<exists>v. parsePost p = Inr v
           \<and> truthy (get_prop v (js ''text''))
           \<and> eq_microblog (get_prop v (js ''type'')) = Inr True
           \<and> box_text b = get_prop v (js ''text'')"
    by blast
next
  assume a: "parsePost p = Inr v \<and> get_prop v (js ''text'') = JStr []"
  then have "v \<noteq> JUndefined" "v \<noteq> JNull"
    by (auto simp: get_prop_def)
  then have "destructure v = Inr (get_prop v (js ''text''), get_prop v (js ''image''),
          get_prop v (js ''type''))"
    by (rule destructure_value)
  with a show "render_post tx p = Inr (EVal (JStr []))"
    by (simp add: render_post_def truthy_def)
qed

theorem render_post_box_only_microblog_witness:
  \<open>render_post \<lparr>tx_id = js ''t1'', from_id = js ''0xGOOD'', posts = [], timestamp = 7\<rparr>
      \<lparr>post_id = js ''p1'', rawContent = js ''{"type":"microblog","text":"hello"}'',
        action = JObj []\<rparr>
    = Inr (EBox \<lparr>box_key = js ''p1'', box_tx = js ''t1'', box_from = js ''0xGOOD'',
                 box_timestamp = 7, box_image = None, box_text = JStr (js ''hello'')\<rparr>)
   \<and> truthy (get_prop (JObj [(js ''type'', JStr (js ''microblog'')),
                              (js ''text'', JStr (js ''hello''))]) (js ''text''))
   \<and> render_post \<lparr>tx_id = js ''t1'', from_id = js ''0xGOOD'', posts = [], timestamp = 7\<rparr>
      \<lparr>post_id = js ''p2'', rawContent = js ''{"type":"microblog","text":""}'',
        action = JObj []\<rparr>
    = Inr (EVal (JStr []))\<close>
proof -
  have e: \<open>get_prop (JObj [(js ''type'', JStr (js ''microblog'')), (js ''text'', JStr [])])
      (js ''text'') = JStr []\<close>
    by (simp add: get_prop_def js_def)
  have t: \<open>truthy (get_prop (JObj [(js ''type'', JStr (js ''microblog'')),
                              (js ''text'', JStr (js ''hello''))]) (js ''text''))\<close>
    by (simp add: get_prop_def truthy_def js_def)
  from render_post_box_only_microblog
      [of \<open>\<lparr>tx_id = js ''t1'', from_id = js ''0xGOOD'', posts = [], timestamp = 7\<rparr>\<close>
        \<open>\<lparr>post_id = js ''p2'', rawContent = js ''{"type":"microblog","text":""}'',
          action = JObj []\<rparr>\<close>
        _
        \<open>JObj [(js ''type'', JStr (js ''microblog'')), (js ''text'', JStr [])]\<close>]
    parsePost_microblog_empty [of "js ''p2''"] e
  have \<open>render_post \<lparr>tx_id = js ''t1'', from_id = js ''0xGOOD'', posts = [], timestamp = 7\<rparr>
      \<lparr>post_id = js ''p2'', rawContent = js ''{"type":"microblog","text":""}'',
        action = JObj []\<rparr>
    = Inr (EVal (JStr []))\<close>
    by blast
  with render_post_microblog_hello t show ?thesis by blast
qed

end
